theory Spec2Isabelle
  imports Main "HOL-Library.Word"
begin

unbundle bit_operations_syntax

section \<open>Machine types\<close>

text \<open>
  The transport layer of the vioscsi miniport (\<^verbatim>\<open>vioscsi/virtio_pci.c\<close>) is embedded for
  the x64 build: pointers, \<^verbatim>\<open>ULONG_PTR\<close> and \<^verbatim>\<open>size_t\<close> are 64-bit words, \<^verbatim>\<open>ULONG\<close> is a
  32-bit word, \<^verbatim>\<open>int\<close> is a 32-bit word read in two's complement (\<open>sint\<close>, \<open><s\<close>, \<open>\<le>s\<close>),
  \<^verbatim>\<open>BOOLEAN\<close> is a byte that counts as true when it is not zero. Unsigned arithmetic
  wraps around, as \<open>+\<close> on words does.
\<close>

type_synonym u8 = "8 word"
type_synonym u16 = "16 word"
type_synonym u32 = "32 word"
type_synonym ULONG = "32 word"
type_synonym ULONG_PTR = "64 word"
type_synonym size_t = "64 word"
type_synonym PVOID = "64 word"
type_synonym PHYSICAL_ADDRESS = "64 word"
type_synonym BOOLEAN = "8 word"
type_synonym cint = "32 word"

definition NULL :: PVOID where
  "NULL = 0"

section \<open>The adapter context\<close>

text \<open>
  The fields of \<^verbatim>\<open>ADAPTER_EXTENSION\<close> and \<^verbatim>\<open>VIRTIO_BAR\<close> that \<^verbatim>\<open>virtio_pci.c\<close> reads and
  writes. The two arrays are lists: \<^verbatim>\<open>pci_config_buf\<close> holds the bytes of the
  configuration snapshot and \<^verbatim>\<open>pci_bars\<close> the \<^verbatim>\<open>PCI_TYPE0_ADDRESSES\<close> BAR descriptors.
  An access with an index outside the list is an access outside the C array; the model
  reports it as a \<open>fault\<close> instead of inventing a value.
\<close>

record VIRTIO_BAR =
  BasePA :: PHYSICAL_ADDRESS
  uLength :: ULONG
  pBase :: PVOID
  bPortSpace :: BOOLEAN

record ADAPTER_EXTENSION =
  pageAllocationVa :: PVOID
  pageAllocationSize :: ULONG
  pageOffset :: ULONG
  pci_config_buf :: "u8 list"
  pci_bars :: "VIRTIO_BAR list"
  system_io_bus_number :: ULONG
  msix_enabled :: BOOLEAN

datatype fault = ConfigBufferOutOfBounds | BarTableOutOfBounds

text \<open>Byte-addressed memory, as far as \<^verbatim>\<open>RtlZeroMemory\<close> changes it.\<close>

type_synonym memory = "PVOID \<Rightarrow> u8"

section \<open>Contiguous DMA allocator\<close>

text \<open>
  \<^verbatim>\<open>PAGE_SIZE\<close> and \<^verbatim>\<open>ROUND_TO_PAGES\<close> come from the kit headers:
  \<^verbatim>\<open>#define ROUND_TO_PAGES(Size) (((ULONG_PTR)(Size) + PAGE_SIZE - 1) & ~(PAGE_SIZE - 1))\<close>
  with \<^verbatim>\<open>PAGE_SIZE\<close> the \<^verbatim>\<open>int\<close> constant \<^verbatim>\<open>0x1000\<close>. The complement is taken on the
  \<^verbatim>\<open>int\<close> and sign-extended to the width of \<^verbatim>\<open>ULONG_PTR\<close>.
\<close>

definition PAGE_SIZE :: cint where
  "PAGE_SIZE = 0x1000"

definition ROUND_TO_PAGES :: "size_t \<Rightarrow> ULONG_PTR" where
  "ROUND_TO_PAGES Size = (Size + scast PAGE_SIZE - 1) AND scast (NOT (PAGE_SIZE - 1))"

text \<open>
  \<^verbatim>\<open>RtlZeroMemory(ptr, n)\<close> clears the \<open>n\<close> bytes from \<open>ptr\<close> on: the addresses \<open>a\<close>
  whose distance \<open>a - ptr\<close> is below \<open>n\<close>.
\<close>

definition RtlZeroMemory :: "memory \<Rightarrow> PVOID \<Rightarrow> size_t \<Rightarrow> memory" where
  "RtlZeroMemory m p n = (\<lambda>a. if a - p < n then 0 else m a)"

text \<open>
  \<^verbatim>\<open>mem_alloc_contiguous_pages\<close>: the pointer is computed first; the test adds the
  32-bit cursor, converted to \<^verbatim>\<open>size_t\<close>, to the requested size in 64-bit arithmetic;
  \<^verbatim>\<open>pageOffset += size\<close> stores the 64-bit sum back into the 32-bit field. The result
  is the returned pointer, the context and the memory after the call. The parameter
  \<^verbatim>\<open>size\<close> is written \<open>sz\<close>, and \<open>sz'\<close> after the assignment that rounds it.
\<close>

definition mem_alloc_contiguous_pages ::
  "ADAPTER_EXTENSION \<Rightarrow> memory \<Rightarrow> size_t \<Rightarrow> PVOID \<times> ADAPTER_EXTENSION \<times> memory" where
  "mem_alloc_contiguous_pages adaptExt m sz =
     (let ptr = pageAllocationVa adaptExt + ucast (pageOffset adaptExt)
      in if ucast (pageOffset adaptExt) + sz \<le> ucast (pageAllocationSize adaptExt)
         then let sz' = ROUND_TO_PAGES sz
              in (ptr,
                  adaptExt\<lparr>pageOffset := ucast (ucast (pageOffset adaptExt) + sz' :: size_t)\<rparr>,
                  RtlZeroMemory m ptr sz')
         else (NULL, adaptExt, m))"

section \<open>Host primitives\<close>

text \<open>
  The StorPort primitives the layer calls are outside the driver. A \<open>host\<close> records
  the calls issued so far, oldest first, and says what each primitive returns; the
  answer may depend on the calls made before, as a device register or a mapping
  request does.
\<close>

datatype host_call =
    StorPortReadRegisterUlong ULONG_PTR
  | StorPortReadPortUlong ULONG_PTR
  | StorPortWriteRegisterUlong ULONG_PTR ULONG
  | StorPortWritePortUlong ULONG_PTR ULONG
  | StorPortReadRegisterUchar ULONG_PTR
  | StorPortReadPortUchar ULONG_PTR
  | StorPortWriteRegisterUchar ULONG_PTR u8
  | StorPortWritePortUchar ULONG_PTR u8
  | StorPortReadRegisterUshort ULONG_PTR
  | StorPortReadPortUshort ULONG_PTR
  | StorPortWriteRegisterUshort ULONG_PTR u16
  | StorPortWritePortUshort ULONG_PTR u16
  | StorPortGetDeviceBase ULONG PHYSICAL_ADDRESS ULONG BOOLEAN

record host =
  calls :: "host_call list"
  uchar_result :: "host_call list \<Rightarrow> host_call \<Rightarrow> u8"
  ushort_result :: "host_call list \<Rightarrow> host_call \<Rightarrow> u16"
  ulong_result :: "host_call list \<Rightarrow> host_call \<Rightarrow> u32"
  base_result :: "host_call list \<Rightarrow> host_call \<Rightarrow> PVOID"

definition issue :: "host \<Rightarrow> host_call \<Rightarrow> host" where
  "issue h c = h\<lparr>calls := calls h @ [c]\<rparr>"

definition host_uchar :: "host \<Rightarrow> host_call \<Rightarrow> u8 \<times> host" where
  "host_uchar h c = (uchar_result h (calls h) c, issue h c)"

definition host_ushort :: "host \<Rightarrow> host_call \<Rightarrow> u16 \<times> host" where
  "host_ushort h c = (ushort_result h (calls h) c, issue h c)"

definition host_ulong :: "host \<Rightarrow> host_call \<Rightarrow> u32 \<times> host" where
  "host_ulong h c = (ulong_result h (calls h) c, issue h c)"

definition host_base :: "host \<Rightarrow> host_call \<Rightarrow> PVOID \<times> host" where
  "host_base h c = (base_result h (calls h) c, issue h c)"

section \<open>Register access\<close>

text \<open>
  \<^verbatim>\<open>PORT_MASK\<close> is the \<^verbatim>\<open>int\<close> constant \<^verbatim>\<open>0xFFFF\<close>; \<^verbatim>\<open>~PORT_MASK\<close> is complemented as an
  \<^verbatim>\<open>int\<close> and sign-extended to \<^verbatim>\<open>ULONG_PTR\<close> before the conjunction with the address.
\<close>

definition PORT_MASK :: cint where
  "PORT_MASK = 0xFFFF"

definition ReadVirtIODeviceRegister :: "host \<Rightarrow> ULONG_PTR \<Rightarrow> u32 \<times> host" where
  "ReadVirtIODeviceRegister h ulRegister =
     (if ulRegister AND scast (NOT PORT_MASK) \<noteq> 0
      then host_ulong h (StorPortReadRegisterUlong ulRegister)
      else host_ulong h (StorPortReadPortUlong ulRegister))"

definition WriteVirtIODeviceRegister :: "host \<Rightarrow> ULONG_PTR \<Rightarrow> u32 \<Rightarrow> host" where
  "WriteVirtIODeviceRegister h ulRegister ulValue =
     (if ulRegister AND scast (NOT PORT_MASK) \<noteq> 0
      then issue h (StorPortWriteRegisterUlong ulRegister ulValue)
      else issue h (StorPortWritePortUlong ulRegister ulValue))"

definition ReadVirtIODeviceByte :: "host \<Rightarrow> ULONG_PTR \<Rightarrow> u8 \<times> host" where
  "ReadVirtIODeviceByte h ulRegister =
     (if ulRegister AND scast (NOT PORT_MASK) \<noteq> 0
      then host_uchar h (StorPortReadRegisterUchar ulRegister)
      else host_uchar h (StorPortReadPortUchar ulRegister))"

definition WriteVirtIODeviceByte :: "host \<Rightarrow> ULONG_PTR \<Rightarrow> u8 \<Rightarrow> host" where
  "WriteVirtIODeviceByte h ulRegister bValue =
     (if ulRegister AND scast (NOT PORT_MASK) \<noteq> 0
      then issue h (StorPortWriteRegisterUchar ulRegister bValue)
      else issue h (StorPortWritePortUchar ulRegister bValue))"

definition ReadVirtIODeviceWord :: "host \<Rightarrow> ULONG_PTR \<Rightarrow> u16 \<times> host" where
  "ReadVirtIODeviceWord h ulRegister =
     (if ulRegister AND scast (NOT PORT_MASK) \<noteq> 0
      then host_ushort h (StorPortReadRegisterUshort ulRegister)
      else host_ushort h (StorPortReadPortUshort ulRegister))"

definition WriteVirtIODeviceWord :: "host \<Rightarrow> ULONG_PTR \<Rightarrow> u16 \<Rightarrow> host" where
  "WriteVirtIODeviceWord h ulRegister wValue =
     (if ulRegister AND scast (NOT PORT_MASK) \<noteq> 0
      then issue h (StorPortWriteRegisterUshort ulRegister wValue)
      else issue h (StorPortWritePortUshort ulRegister wValue))"

text \<open>
  What a host call is, read off its name: the direction, the address space, the
  width, the address, and the value a write carries.
\<close>

datatype direction = Read | Write
datatype space = MemorySpace | PortSpace
datatype width = UcharAccess | UshortAccess | UlongAccess

fun access_of :: "host_call \<Rightarrow> (direction \<times> space \<times> width \<times> ULONG_PTR) option" where
  "access_of (StorPortReadRegisterUlong a) = Some (Read, MemorySpace, UlongAccess, a)"
| "access_of (StorPortReadPortUlong a) = Some (Read, PortSpace, UlongAccess, a)"
| "access_of (StorPortWriteRegisterUlong a v) = Some (Write, MemorySpace, UlongAccess, a)"
| "access_of (StorPortWritePortUlong a v) = Some (Write, PortSpace, UlongAccess, a)"
| "access_of (StorPortReadRegisterUchar a) = Some (Read, MemorySpace, UcharAccess, a)"
| "access_of (StorPortReadPortUchar a) = Some (Read, PortSpace, UcharAccess, a)"
| "access_of (StorPortWriteRegisterUchar a v) = Some (Write, MemorySpace, UcharAccess, a)"
| "access_of (StorPortWritePortUchar a v) = Some (Write, PortSpace, UcharAccess, a)"
| "access_of (StorPortReadRegisterUshort a) = Some (Read, MemorySpace, UshortAccess, a)"
| "access_of (StorPortReadPortUshort a) = Some (Read, PortSpace, UshortAccess, a)"
| "access_of (StorPortWriteRegisterUshort a v) = Some (Write, MemorySpace, UshortAccess, a)"
| "access_of (StorPortWritePortUshort a v) = Some (Write, PortSpace, UshortAccess, a)"
| "access_of (StorPortGetDeviceBase b pa n io) = None"

fun written :: "host_call \<Rightarrow> nat option" where
  "written (StorPortWriteRegisterUlong a v) = Some (unat v)"
| "written (StorPortWritePortUlong a v) = Some (unat v)"
| "written (StorPortWriteRegisterUchar a v) = Some (unat v)"
| "written (StorPortWritePortUchar a v) = Some (unat v)"
| "written (StorPortWriteRegisterUshort a v) = Some (unat v)"
| "written (StorPortWritePortUshort a v) = Some (unat v)"
| "written c = None"

text \<open>The dispatch rule in the specification's words: \<^verbatim>\<open>a & ~0xFFFF != 0\<close>.\<close>

definition dispatch :: "ULONG_PTR \<Rightarrow> space" where
  "dispatch a = (if a AND NOT 0xFFFF \<noteq> 0 then MemorySpace else PortSpace)"

section \<open>PCI configuration snapshot\<close>

text \<open>
  \<^verbatim>\<open>pci_read_config_byte/word/dword\<close> store the value through the out-parameter and
  return 0; the model returns the pair of the return code and the stored value. The
  word and dword reads are the loads \<^verbatim>\<open>*(u16 *)&buf[where]\<close> and \<^verbatim>\<open>*(u32 *)&buf[where]\<close> of
  a little-endian machine: the byte at the lowest address is the least significant.
  \<open>config_bytes\<close> is the array access: the \<open>n\<close> bytes from index \<^verbatim>\<open>where\<close> on, or
  nothing when one of them is outside the array. The parameter \<^verbatim>\<open>where\<close> is written
  \<open>pos\<close>.
\<close>

definition config_bytes :: "u8 list \<Rightarrow> cint \<Rightarrow> nat \<Rightarrow> u8 list option" where
  "config_bytes buf pos n =
     (if 0 \<le>s pos \<and> nat (sint pos) + n \<le> length buf
      then Some (take n (drop (nat (sint pos)) buf)) else None)"

definition pci_read_config_byte :: "ADAPTER_EXTENSION \<Rightarrow> cint \<Rightarrow> fault + (cint \<times> u8)" where
  "pci_read_config_byte adaptExt pos =
     (case config_bytes (pci_config_buf adaptExt) pos 1 of
        Some [b0] \<Rightarrow> Inr (0, b0)
      | _ \<Rightarrow> Inl ConfigBufferOutOfBounds)"

definition pci_read_config_word :: "ADAPTER_EXTENSION \<Rightarrow> cint \<Rightarrow> fault + (cint \<times> u16)" where
  "pci_read_config_word adaptExt pos =
     (case config_bytes (pci_config_buf adaptExt) pos 2 of
        Some [b0, b1] \<Rightarrow> Inr (0, word_cat b1 b0)
      | _ \<Rightarrow> Inl ConfigBufferOutOfBounds)"

definition pci_read_config_dword :: "ADAPTER_EXTENSION \<Rightarrow> cint \<Rightarrow> fault + (cint \<times> u32)" where
  "pci_read_config_dword adaptExt pos =
     (case config_bytes (pci_config_buf adaptExt) pos 4 of
        Some [b0, b1, b2, b3] \<Rightarrow>
          Inr (0, word_cat (word_cat b3 b2 :: u16) (word_cat b1 b0 :: u16))
      | _ \<Rightarrow> Inl ConfigBufferOutOfBounds)"

section \<open>BAR table\<close>

text \<open>
  Modelled from the spec: \<^verbatim>\<open>PCI_TYPE0_ADDRESSES\<close> is declared in a kit header that is not
  among the sources; it is the number of BARs of a PCI type 0 header, the specification's
  ``PCI standard BAR count'', which is 6. It is an \<^verbatim>\<open>int\<close> constant, so the comparison
  \<^verbatim>\<open>bar < PCI_TYPE0_ADDRESSES\<close> is a signed one.
\<close>

definition PCI_TYPE0_ADDRESSES :: cint where
  "PCI_TYPE0_ADDRESSES = 6"

text \<open>
  \<open>bar_entry\<close> is the array access \<^verbatim>\<open>adaptExt->pci_bars[bar]\<close>: the index of the entry,
  or nothing when the index designates no entry of the table.
\<close>

definition bar_entry :: "ADAPTER_EXTENSION \<Rightarrow> cint \<Rightarrow> nat option" where
  "bar_entry adaptExt bar =
     (if 0 \<le>s bar \<and> nat (sint bar) < length (pci_bars adaptExt)
      then Some (nat (sint bar)) else None)"

definition pci_get_resource_len :: "ADAPTER_EXTENSION \<Rightarrow> cint \<Rightarrow> fault + size_t" where
  "pci_get_resource_len adaptExt bar =
     (if bar <s PCI_TYPE0_ADDRESSES
      then (case bar_entry adaptExt bar of
              None \<Rightarrow> Inl BarTableOutOfBounds
            | Some i \<Rightarrow> Inr (ucast (uLength (pci_bars adaptExt ! i))))
      else Inr 0)"

text \<open>
  \<^verbatim>\<open>pci_map_address_range\<close>: the result is the returned pointer, the host and the
  context after the call. \<open>double_not\<close> is the C idiom \<^verbatim>\<open>!!x\<close>: 1 when \<open>x\<close> is not zero
  and 0 otherwise. The parameter \<^verbatim>\<open>maxlen\<close> is kept although the body never reads it.
\<close>

definition double_not :: "BOOLEAN \<Rightarrow> BOOLEAN" where
  "double_not x = (if x \<noteq> 0 then 1 else 0)"

definition pci_map_address_range ::
  "host \<Rightarrow> ADAPTER_EXTENSION \<Rightarrow> cint \<Rightarrow> size_t \<Rightarrow> size_t
     \<Rightarrow> fault + (PVOID \<times> host \<times> ADAPTER_EXTENSION)" where
  "pci_map_address_range h adaptExt bar offset maxlen =
     (if bar <s PCI_TYPE0_ADDRESSES
      then (case bar_entry adaptExt bar of
              None \<Rightarrow> Inl BarTableOutOfBounds
            | Some i \<Rightarrow>
                let pBar = pci_bars adaptExt ! i;
                    (h', pBar') =
                      (if pBase pBar = NULL
                       then let (b, h1) = host_base h
                                  (StorPortGetDeviceBase (system_io_bus_number adaptExt)
                                     (BasePA pBar) (uLength pBar)
                                     (double_not (bPortSpace pBar)))
                            in (h1, pBar\<lparr>pBase := b\<rparr>)
                       else (h, pBar));
                    adaptExt' = adaptExt\<lparr>pci_bars := (pci_bars adaptExt)[i := pBar']\<rparr>
                in if pBase pBar' \<noteq> NULL \<and> offset < ucast (uLength pBar')
                   then Inr (pBase pBar' + offset, h', adaptExt')
                   else Inr (NULL, h', adaptExt'))
      else Inr (NULL, h, adaptExt))"

section \<open>Interrupt vectors\<close>

text \<open>
  Modelled from the spec: \<^verbatim>\<open>VIRTIO_MSI_NO_VECTOR\<close> is declared in \<^verbatim>\<open>VirtIO_PCI.h\<close>, which is
  not among the sources; it is the specification's ``no vector'' sentinel, \<^verbatim>\<open>0xffff\<close> in
  the virtio PCI interface.

  \<^verbatim>\<open>vector = queue + 1\<close> adds on \<^verbatim>\<open>int\<close> and stores the low 16 bits in the \<^verbatim>\<open>u16\<close>.
\<close>

definition VIRTIO_MSI_NO_VECTOR :: u16 where
  "VIRTIO_MSI_NO_VECTOR = 0xffff"

definition vdev_get_msix_vector :: "ADAPTER_EXTENSION \<Rightarrow> cint \<Rightarrow> u16" where
  "vdev_get_msix_vector adaptExt queue =
     (if 0 \<le>s queue
      then (if msix_enabled adaptExt \<noteq> 0 then ucast (queue + 1) else VIRTIO_MSI_NO_VECTOR)
      else VIRTIO_MSI_NO_VECTOR)"

section \<open>Calling sequences and example states\<close>

text \<open>
  A caller that issues one allocation request after the other: the results of the
  calls, in order, each with the context and the memory it left.
\<close>

fun alloc_run ::
  "ADAPTER_EXTENSION \<Rightarrow> memory \<Rightarrow> size_t list \<Rightarrow> (PVOID \<times> ADAPTER_EXTENSION \<times> memory) list" where
  "alloc_run adaptExt m [] = []"
| "alloc_run adaptExt m (sz # szs) =
     (case mem_alloc_contiguous_pages adaptExt m sz of
        (p, adaptExt', m') \<Rightarrow> (p, adaptExt', m') # alloc_run adaptExt' m' szs)"

text \<open>Rounding a size up to whole pages of 4096 bytes, on the natural numbers.\<close>

definition round_pages :: "nat \<Rightarrow> nat" where
  "round_pages n = ((n + 4095) div 4096) * 4096"

text \<open>The sum of the page-rounded sizes of a list of requests.\<close>

definition page_total :: "size_t list \<Rightarrow> nat" where
  "page_total szs = sum_list (map (\<lambda>sz. round_pages (unat sz)) szs)"

text \<open>
  The states of the specification's scenarios: an extent of three pages with the
  cursor at 0, a configuration snapshot of 256 bytes with \<^verbatim>\<open>0x34\<close> at \<^verbatim>\<open>0x2E\<close> and \<^verbatim>\<open>0x12\<close> at
  \<^verbatim>\<open>0x2F\<close>, six BARs of which BAR 0 has length \<^verbatim>\<open>0x1000\<close> and is not mapped yet, and MSI-X
  enabled.
\<close>

definition snapshot0 :: "u8 list" where
  "snapshot0 = (replicate 256 0)[0x2E := 0x34, 0x2F := 0x12]"

definition bar0 :: VIRTIO_BAR where
  "bar0 = \<lparr>BasePA = 0xFEB00000, uLength = 0x1000, pBase = NULL, bPortSpace = 0\<rparr>"

definition adapter0 :: ADAPTER_EXTENSION where
  "adapter0 = \<lparr>pageAllocationVa = 0x10000, pageAllocationSize = 0x3000, pageOffset = 0,
               pci_config_buf = snapshot0, pci_bars = replicate 6 bar0,
               system_io_bus_number = 0, msix_enabled = 1\<rparr>"

definition memory0 :: memory where
  "memory0 = (\<lambda>a. 0xFF)"

text \<open>
  Two hosts with an empty call history: one maps every range at \<^verbatim>\<open>0xFFFFF000\<close>, the other
  refuses the first mapping request (returns null) and grants the later ones.
\<close>

definition host0 :: host where
  "host0 = \<lparr>calls = [], uchar_result = (\<lambda>cs c. 0), ushort_result = (\<lambda>cs c. 0),
            ulong_result = (\<lambda>cs c. 0), base_result = (\<lambda>cs c. 0xFFFFF000)\<rparr>"

definition host1 :: host where
  "host1 = host0\<lparr>base_result := (\<lambda>cs c. if cs = [] then NULL else 0xFFFFF000)\<rparr>"

section \<open>Word arithmetic\<close>

lemma unat_ucast_up: "unat (ucast (x :: 32 word) :: 64 word) = unat x"
proof -
  have "unat x < 2 ^ 32" using unsigned_less [of x] by simp
  then have "unat x < 2 ^ 64" by simp
  then show ?thesis by (simp add: unsigned_ucast_eq take_bit_nat_eq_self)
qed

lemma and_not_mask_eq: "(w :: 64 word) AND NOT (mask n) = push_bit n (drop_bit n w)"
  by (rule bit_eqI) (auto simp add: bit_simps)

lemma unat_and_not_mask: "unat ((w :: 64 word) AND NOT (mask n)) = (unat w div 2 ^ n) * 2 ^ n"
proof -
  have le: "(unat w div 2 ^ n) * 2 ^ n \<le> unat w" by simp
  have "unat w < 2 ^ 64" using unsigned_less [of w] by simp
  with le have lt: "(unat w div 2 ^ n) * 2 ^ n < 2 ^ 64" by linarith
  have "unat (push_bit n (drop_bit n w)) = take_bit 64 (push_bit n (drop_bit n (unat w)))"
    by (simp add: unsigned_push_bit_eq unat_drop_bit_eq)
  also have "\<dots> = (unat w div 2 ^ n) * 2 ^ n"
    using lt by (simp add: push_bit_eq_mult drop_bit_eq_div take_bit_nat_eq_self)
  finally show ?thesis by (simp add: and_not_mask_eq)
qed

lemma not_page_mask: "scast (NOT (PAGE_SIZE - 1)) = (NOT (mask 12) :: 64 word)"
  by (simp add: PAGE_SIZE_def mask_eq_exp_minus_1)

lemma not_port_mask: "scast (NOT PORT_MASK) = (NOT (mask 16) :: 64 word)"
  by (simp add: PORT_MASK_def mask_eq_exp_minus_1)

lemma above_port_mask: "((a :: 64 word) AND NOT (mask 16) \<noteq> 0) = (0xFFFF < a)"
proof -
  have "(a AND NOT (mask 16) = 0) = (unat (a AND NOT (mask 16)) = 0)"
    by (simp add: unat_eq_0)
  also have "\<dots> = (unat a < 65536)"
    by (simp add: unat_and_not_mask div_eq_0_iff)
  also have "\<dots> = (a \<le> 0xFFFF)"
    by (simp add: word_le_nat_alt) arith
  finally show ?thesis by (simp add: not_le)
qed

lemma sint_nonneg_uint:
  assumes "0 \<le> sint (q :: 32 word)" shows "uint q = sint q"
proof -
  have "sint q < 2 ^ 31" using sint_lt [of q] by simp
  then have "sint q < 2 ^ 32" by simp
  with assms have "take_bit 32 (sint q) = sint q" by (simp add: take_bit_int_eq_self)
  then show ?thesis using uint_sint [of q] by simp
qed

lemma uint_ucast_succ:
  assumes "0 \<le> sint (queue :: 32 word)"
  shows "uint (ucast (queue + 1) :: 16 word) = (sint queue + 1) mod 2 ^ 16"
proof -
  have "uint (ucast (queue + 1) :: 16 word) = take_bit 16 (uint (queue + 1))"
    by (simp add: unsigned_ucast_eq)
  also have "\<dots> = take_bit 16 (take_bit 32 (uint queue + 1))"
    by (simp add: uint_word_ariths take_bit_eq_mod)
  also have "\<dots> = take_bit 16 (uint queue + 1)"
    by simp
  finally show ?thesis using assms by (simp add: take_bit_eq_mod sint_nonneg_uint)
qed

lemma uint_word_cat_16:
  "uint (word_cat (b1 :: 8 word) (b0 :: 8 word) :: 16 word) = uint b0 + 256 * uint b1"
proof -
  have b: "uint b0 < 2 ^ 8" "uint b1 < 2 ^ 8" "0 \<le> uint b0" "0 \<le> uint b1"
    using uint_lt2p [of b0] uint_lt2p [of b1] by simp_all
  from b have r: "0 \<le> uint b0 + 256 * uint b1" "uint b0 + 256 * uint b1 < 2 ^ 16" by simp_all
  have "uint (word_cat b1 b0 :: 16 word) = take_bit 16 (concat_bit 8 (uint b0) (uint b1))"
    by (simp add: word_cat_eq' uint_word_of_int_eq)
  also have "\<dots> = take_bit 16 (uint b0 + 256 * uint b1)"
    using b by (simp add: concat_bit_eq push_bit_eq_mult take_bit_eq_mod mult.commute)
  also have "\<dots> = uint b0 + 256 * uint b1"
    using r by (simp add: take_bit_int_eq_self)
  finally show ?thesis .
qed

lemma uint_word_cat_32:
  "uint (word_cat (w1 :: 16 word) (w0 :: 16 word) :: 32 word) = uint w0 + 65536 * uint w1"
proof -
  have b: "uint w0 < 2 ^ 16" "uint w1 < 2 ^ 16" "0 \<le> uint w0" "0 \<le> uint w1"
    using uint_lt2p [of w0] uint_lt2p [of w1] by simp_all
  from b have r: "0 \<le> uint w0 + 65536 * uint w1" "uint w0 + 65536 * uint w1 < 2 ^ 32" by simp_all
  have "uint (word_cat w1 w0 :: 32 word) = take_bit 32 (concat_bit 16 (uint w0) (uint w1))"
    by (simp add: word_cat_eq' uint_word_of_int_eq)
  also have "\<dots> = take_bit 32 (uint w0 + 65536 * uint w1)"
    using b by (simp add: concat_bit_eq push_bit_eq_mult take_bit_eq_mod mult.commute)
  also have "\<dots> = uint w0 + 65536 * uint w1"
    using r by (simp add: take_bit_int_eq_self)
  finally show ?thesis .
qed

lemma drop_two: "i + 2 \<le> length xs \<Longrightarrow> take 2 (drop i xs) = [xs ! i, xs ! (i + 1)]"
proof -
  assume a: "i + 2 \<le> length xs"
  then have "drop i xs = xs ! i # drop (Suc i) xs"
    by (simp add: Cons_nth_drop_Suc)
  moreover from a have "drop (Suc i) xs = xs ! (Suc i) # drop (Suc (Suc i)) xs"
    by (simp add: Cons_nth_drop_Suc)
  ultimately show ?thesis by (simp add: numeral_2_eq_2)
qed

lemma drop_one: "i + 1 \<le> length xs \<Longrightarrow> take (Suc 0) (drop i xs) = [xs ! i]"
proof -
  assume "i + 1 \<le> length xs"
  then have "drop i xs = xs ! i # drop (Suc i) xs"
    by (simp add: Cons_nth_drop_Suc)
  then show ?thesis by simp
qed

lemma drop_four:
  "i + 4 \<le> length xs
   \<Longrightarrow> take 4 (drop i xs) = [xs ! i, xs ! (i + 1), xs ! (i + 2), xs ! (i + 3)]"
proof -
  assume a: "i + 4 \<le> length xs"
  then have "i + 2 \<le> length xs" and b: "(i + 2) + 2 \<le> length xs" by simp_all
  then have "take 2 (drop i xs) = [xs ! i, xs ! (i + 1)]" by (simp add: drop_two)
  moreover from b have "take 2 (drop (i + 2) xs) = [xs ! (i + 2), xs ! (i + 2 + 1)]"
    by (rule drop_two)
  moreover have "take 4 (drop i xs) = take 2 (drop i xs) @ take 2 (drop (i + 2) xs)"
    using take_add [of 2 2 "drop i xs"] by (simp add: add.commute)
  ultimately show ?thesis by (simp add: numeral_3_eq_3 add.commute)
qed

section \<open>Properties of the allocator\<close>

lemma alloc_guard_nat:
  "(ucast (off :: ULONG) + (sz :: size_t) \<le> ucast (tot :: ULONG))
     = ((unat off + unat sz) mod 2 ^ 64 \<le> unat tot)"
  by (simp add: word_le_nat_alt unat_word_ariths unat_ucast_up)

text \<open>
  The failure branch: a request whose 64-bit sum \<open>pageOffset + size\<close> exceeds
  \<open>pageAllocationSize\<close> returns the null pointer and changes neither the context nor the
  memory. A request that would push the cursor past the extent takes this branch as long
  as \<open>pageOffset + size\<close> stays below \<open>2^64\<close>.
\<close>

lemma alloc_failure_branch:
  assumes "unat (pageAllocationSize adaptExt) < (unat (pageOffset adaptExt) + unat sz) mod 2 ^ 64"
  shows "mem_alloc_contiguous_pages adaptExt m sz = (NULL, adaptExt, m)"
proof -
  from assms have "\<not> ucast (pageOffset adaptExt) + sz \<le> (ucast (pageAllocationSize adaptExt) :: size_t)"
    by (simp add: alloc_guard_nat)
  then show ?thesis
    by (simp add: mem_alloc_contiguous_pages_def)
qed

lemma alloc_failure_no_wrap:
  assumes "unat (pageAllocationSize adaptExt) < unat (pageOffset adaptExt) + unat sz"
    and "unat (pageOffset adaptExt) + unat sz < 2 ^ 64"
  shows "mem_alloc_contiguous_pages adaptExt m sz = (NULL, adaptExt, m)"
  using assms by (intro alloc_failure_branch) simp

text \<open>
  C3. On the extent of three pages with the cursor at its end, \<open>pageOffset = 0x3000\<close>, a
  request of \<^verbatim>\<open>0xFFFFFFFFFFFFD000\<close> bytes would push the cursor past \<open>pageAllocationSize\<close>,
  yet the call does not fail: the sum wraps around to 0, the capacity test passes, the
  call returns the non-null address \<^verbatim>\<open>0x13000\<close> and \<open>pageOffset\<close> is changed, to 0. A request
  of \<^verbatim>\<open>0xFFFFFFFFFFFFF001\<close> bytes on the same state passes the test in the same way (the sum
  wraps to \<^verbatim>\<open>0x2001\<close>, the rounded size to 0) and returns \<^verbatim>\<open>0x13000\<close> instead of null.
\<close>

theorem alloc_unfit_request_granted:
  "unat (pageAllocationSize (adapter0\<lparr>pageOffset := 0x3000\<rparr>))
     < unat (pageOffset (adapter0\<lparr>pageOffset := 0x3000\<rparr>)) + unat (0xFFFFFFFFFFFFD000 :: size_t)
   \<and> fst (mem_alloc_contiguous_pages (adapter0\<lparr>pageOffset := 0x3000\<rparr>) m 0xFFFFFFFFFFFFD000)
       = 0x13000
   \<and> (0x13000 :: PVOID) \<noteq> NULL
   \<and> pageOffset (adapter0\<lparr>pageOffset := 0x3000\<rparr>) = 0x3000
   \<and> pageOffset (fst (snd (mem_alloc_contiguous_pages (adapter0\<lparr>pageOffset := 0x3000\<rparr>) m
         0xFFFFFFFFFFFFD000))) = 0
   \<and> unat (pageAllocationSize (adapter0\<lparr>pageOffset := 0x3000\<rparr>))
     < unat (pageOffset (adapter0\<lparr>pageOffset := 0x3000\<rparr>)) + unat (0xFFFFFFFFFFFFF001 :: size_t)
   \<and> fst (mem_alloc_contiguous_pages (adapter0\<lparr>pageOffset := 0x3000\<rparr>) m 0xFFFFFFFFFFFFF001)
       = 0x13000"
  by (simp add: mem_alloc_contiguous_pages_def adapter0_def ROUND_TO_PAGES_def PAGE_SIZE_def
      NULL_def Let_def)

text \<open>
  C1. The scenario of the claim on the code: on the extent of three pages, three
  requests of 4000 bytes return the extent's pages in turn and move the cursor to 4096,
  8192 and 12288. A fourth request of \<^verbatim>\<open>0xFFFFFFFFFFFFD000\<close> bytes, a size greater than 0,
  does not fail: the sum \<open>pageOffset + size\<close> wraps around to 0 in 64-bit arithmetic, the
  capacity test passes, the call returns the address just behind the extent and the
  cursor goes back to 0.
\<close>

theorem alloc_capacity_test_wraps:
  "map (\<lambda>(p, adaptExt, m). (p, pageOffset adaptExt))
     (alloc_run adapter0 m [4000, 4000, 4000, 0xFFFFFFFFFFFFD000])
   = [(0x10000, 0x1000), (0x11000, 0x2000), (0x12000, 0x3000), (0x13000, 0)]"
  by (simp add: mem_alloc_contiguous_pages_def adapter0_def ROUND_TO_PAGES_def PAGE_SIZE_def Let_def)

text \<open>
  A request that fits with its page-rounded size: the capacity test passes, the
  rounding and the new cursor do not wrap around, and the region cleared is the
  page-rounded one.
\<close>

lemma round_pages_ge: "n \<le> round_pages n"
proof -
  have "n + 4095 = ((n + 4095) div 4096) * 4096 + (n + 4095) mod 4096"
    by simp
  moreover have "(n + 4095) mod 4096 < 4096" by simp
  ultimately show ?thesis unfolding round_pages_def by linarith
qed

lemma round_pages_dvd: "4096 dvd round_pages n"
  by (simp add: round_pages_def)

lemma round_pages_pos: "0 < n \<Longrightarrow> 0 < round_pages n"
  using round_pages_ge [of n] by simp

lemma unat_ROUND_TO_PAGES:
  assumes "unat s + 4095 < 2 ^ 64"
  shows "unat (ROUND_TO_PAGES s) = round_pages (unat s)"
proof -
  have e: "s + scast PAGE_SIZE - 1 = s + 4095"
    by (simp add: PAGE_SIZE_def)
  have "unat (s + 4095) = unat s + unat (4095 :: 64 word)"
    using assms by (subst unat_add_lem [symmetric]) simp
  then have u: "unat (s + 4095) = unat s + 4095" by simp
  show ?thesis
    by (simp add: ROUND_TO_PAGES_def not_page_mask e unat_and_not_mask u round_pages_def)
qed

lemma unat_ucast_down: "unat (ucast (x :: 64 word) :: 32 word) = unat x mod 2 ^ 32"
  by (simp add: unsigned_ucast_eq take_bit_eq_mod)


lemma alloc_step:
  assumes cap: "unat (pageOffset a) + round_pages (unat sz) \<le> unat (pageAllocationSize a)"
  shows "mem_alloc_contiguous_pages a m sz =
      (pageAllocationVa a + ucast (pageOffset a),
       a\<lparr>pageOffset := ucast (ucast (pageOffset a) + ROUND_TO_PAGES sz :: size_t)\<rparr>,
       RtlZeroMemory m (pageAllocationVa a + ucast (pageOffset a)) (ROUND_TO_PAGES sz))"
    and "unat (ROUND_TO_PAGES sz) = round_pages (unat sz)"
    and "unat (ucast (ucast (pageOffset a) + ROUND_TO_PAGES sz :: size_t) :: ULONG)
         = unat (pageOffset a) + round_pages (unat sz)"
proof -
  have t: "unat (pageAllocationSize a) < 2 ^ 32"
    using unsigned_less [of "pageAllocationSize a"] by simp
  have le: "unat sz \<le> round_pages (unat sz)" by (rule round_pages_ge)
  from cap le t have small: "unat (pageOffset a) + unat sz < 2 ^ 32" by linarith
  then have "(unat (pageOffset a) + unat sz) mod 2 ^ 64 = unat (pageOffset a) + unat sz"
    by simp
  with cap le have guard: "ucast (pageOffset a) + sz \<le> (ucast (pageAllocationSize a) :: size_t)"
    by (simp add: alloc_guard_nat)
  then show "mem_alloc_contiguous_pages a m sz =
      (pageAllocationVa a + ucast (pageOffset a),
       a\<lparr>pageOffset := ucast (ucast (pageOffset a) + ROUND_TO_PAGES sz :: size_t)\<rparr>,
       RtlZeroMemory m (pageAllocationVa a + ucast (pageOffset a)) (ROUND_TO_PAGES sz))"
    by (simp add: mem_alloc_contiguous_pages_def Let_def)
  from small have "unat sz + 4095 < 2 ^ 64" by simp
  then show r: "unat (ROUND_TO_PAGES sz) = round_pages (unat sz)"
    by (rule unat_ROUND_TO_PAGES)
  from cap t have s32: "unat (pageOffset a) + round_pages (unat sz) < 2 ^ 32" by linarith
  then have "unat (ucast (pageOffset a) :: size_t) + unat (ROUND_TO_PAGES sz) < 2 ^ 64"
    by (simp add: unat_ucast_up r)
  then have "unat (ucast (pageOffset a) + ROUND_TO_PAGES sz :: size_t)
      = unat (pageOffset a) + round_pages (unat sz)"
    by (simp add: unat_add_lem [THEN iffD1] unat_ucast_up r)
  with s32 show "unat (ucast (ucast (pageOffset a) + ROUND_TO_PAGES sz :: size_t) :: ULONG)
         = unat (pageOffset a) + round_pages (unat sz)"
    by (simp add: unat_ucast_down)
qed

lemma zero_filled:
  assumes "k < unat n"
  shows "RtlZeroMemory m p n (p + of_nat k) = 0"
proof -
  have "unat n < 2 ^ 64" using unsigned_less [of n] by simp
  with assms have "unat (of_nat k :: 64 word) = k"
    by (simp add: unat_of_nat)
  with assms have "(of_nat k :: 64 word) < n"
    by (simp add: word_less_nat_alt)
  then show ?thesis by (simp add: RtlZeroMemory_def)
qed

lemma alloc_run_length: "length (alloc_run a m szs) = length szs"
  by (induction szs arbitrary: a m) (auto split: prod.splits)


lemma alloc_run_nth:
  assumes "unat (pageOffset a) + page_total szs \<le> unat (pageAllocationSize a)"
    and "i < length szs"
  shows "case alloc_run a m szs ! i of (p, a', m') \<Rightarrow>
      p = pageAllocationVa a + of_nat (unat (pageOffset a) + page_total (take i szs))
    \<and> unat (pageOffset a') = unat (pageOffset a) + page_total (take (Suc i) szs)
    \<and> (\<forall>k < round_pages (unat (szs ! i)). m' (p + of_nat k) = 0)"
  using assms
proof (induction szs arbitrary: a m i)
  case Nil
  then show ?case by simp
next
  case (Cons sz szs)
  define a' where "a' = a\<lparr>pageOffset := ucast (ucast (pageOffset a) + ROUND_TO_PAGES sz :: size_t)\<rparr>"
  define p where "p = pageAllocationVa a + ucast (pageOffset a)"
  define m' where "m' = RtlZeroMemory m p (ROUND_TO_PAGES sz)"
  from Cons.prems have cap:
    "unat (pageOffset a) + round_pages (unat sz) \<le> unat (pageAllocationSize a)"
    by (simp add: page_total_def)
  note st = alloc_step [OF cap]
  have run: "alloc_run a m (sz # szs) = (p, a', m') # alloc_run a' m' szs"
    by (simp add: st(1) a'_def p_def m'_def)
  have off': "unat (pageOffset a') = unat (pageOffset a) + round_pages (unat sz)"
    by (simp add: a'_def st(3))
  show ?case
  proof (cases i)
    case 0
    then show ?thesis
      using run off' st(2) by (simp add: p_def m'_def zero_filled page_total_def)
  next
    case (Suc i')
    have "unat (pageOffset a') + page_total szs \<le> unat (pageAllocationSize a')"
      using Cons.prems off' by (simp add: a'_def page_total_def)
    moreover have "i' < length szs" using Cons.prems Suc by simp
    ultimately have IH: "case alloc_run a' m' szs ! i' of (p, a'', m'') \<Rightarrow>
        p = pageAllocationVa a' + of_nat (unat (pageOffset a') + page_total (take i' szs))
      \<and> unat (pageOffset a'') = unat (pageOffset a') + page_total (take (Suc i') szs)
      \<and> (\<forall>k < round_pages (unat (szs ! i')). m'' (p + of_nat k) = 0)"
      by (rule Cons.IH)
    obtain q a'' m'' where r: "alloc_run a' m' szs ! i' = (q, a'', m'')"
      by (cases "alloc_run a' m' szs ! i'") auto
    note all = IH [unfolded r prod.case]
    from all have q: "q = pageAllocationVa a' + of_nat (unat (pageOffset a') + page_total (take i' szs))"
      by (rule conjunct1)
    from all have o: "unat (pageOffset a'') = unat (pageOffset a') + page_total (take (Suc i') szs)"
      by (rule conjunct2 [THEN conjunct1])
    from all have z: "\<forall>k < round_pages (unat (szs ! i')). m'' (q + of_nat k) = 0"
      by (rule conjunct2 [THEN conjunct2])
    have va: "pageAllocationVa a' = pageAllocationVa a" by (simp add: a'_def)
    have e1: "unat (pageOffset a') + page_total (take i' szs)
        = unat (pageOffset a) + page_total (take i (sz # szs))"
      using off' Suc by (simp add: page_total_def)
    have e2: "unat (pageOffset a') + page_total (take (Suc i') szs)
        = unat (pageOffset a) + page_total (take (Suc i) (sz # szs))"
      using off' Suc by (simp add: page_total_def)
    have e3: "szs ! i' = (sz # szs) ! i" using Suc by simp
    have nth: "alloc_run a m (sz # szs) ! i = (q, a'', m'')"
      using run Suc r by simp
    from q have q': "q = pageAllocationVa a + of_nat (unat (pageOffset a) + page_total (take i (sz # szs)))"
      unfolding va e1 .
    from o have o': "unat (pageOffset a'') = unat (pageOffset a) + page_total (take (Suc i) (sz # szs))"
      unfolding e2 .
    from z have z': "\<forall>k < round_pages (unat ((sz # szs) ! i)). m'' (q + of_nat k) = 0"
      unfolding e3 .
    from q' o' z' show ?thesis
      unfolding nth by (simp only: prod.case simp_thms)
  qed
qed

lemma page_total_dvd: "4096 dvd page_total szs"
  by (induction szs) (simp_all add: page_total_def round_pages_dvd)

lemma page_total_take_Suc:
  "i < length szs \<Longrightarrow> page_total (take (Suc i) szs) = page_total (take i szs) + round_pages (unat (szs ! i))"
  by (simp add: page_total_def take_Suc_conv_app_nth)

lemma page_total_take_mono: "j \<le> i \<Longrightarrow> page_total (take j szs) \<le> page_total (take i szs)"
proof -
  assume "j \<le> i"
  then have "take i szs = take j szs @ take (i - j) (drop j szs)"
    by (metis le_add_diff_inverse take_add)
  then show ?thesis by (simp add: page_total_def)
qed

lemma page_total_take_le: "page_total (take i szs) \<le> page_total szs"
  using page_total_take_mono [of i "length szs" szs]
  by (cases "i \<le> length szs") simp_all


lemma page_aligned_iff: "((p :: 64 word) AND 0xFFF = 0) = (4096 dvd unat p)"
proof -
  have "(0xFFF :: 64 word) = mask 12" by (simp add: mask_eq_exp_minus_1)
  then show ?thesis using and_mask_dvd_nat [of 12 p] by simp
qed

lemma alloc_run_ptr:
  assumes off0: "pageOffset a = 0"
    and fit: "unat (pageAllocationVa a) + unat (pageAllocationSize a) < 2 ^ 64"
    and cap: "page_total szs \<le> unat (pageAllocationSize a)"
    and i: "i < length szs"
  shows "unat (fst (alloc_run a m szs ! i)) = unat (pageAllocationVa a) + page_total (take i szs)"
proof -
  obtain p a' m' where r: "alloc_run a m szs ! i = (p, a', m')"
    by (cases "alloc_run a m szs ! i") auto
  from off0 cap have "unat (pageOffset a) + page_total szs \<le> unat (pageAllocationSize a)"
    by simp
  note nth = alloc_run_nth [OF this i, of m, unfolded r prod.case]
  from nth [THEN conjunct1] off0 have p: "p = pageAllocationVa a + of_nat (page_total (take i szs))"
    by simp
  have le: "page_total (take i szs) \<le> unat (pageAllocationSize a)"
    using page_total_take_le [of i szs] cap by simp
  with fit have small: "page_total (take i szs) < 2 ^ 64" by simp
  then have u: "unat (of_nat (page_total (take i szs)) :: 64 word) = page_total (take i szs)"
    by (simp add: unat_of_nat)
  from le fit have "unat (pageAllocationVa a) + unat (of_nat (page_total (take i szs)) :: 64 word) < 2 ^ 64"
    by (simp add: u)
  then have "unat p = unat (pageAllocationVa a) + page_total (take i szs)"
    unfolding p by (simp add: unat_add_lem [THEN iffD1] u)
  then show ?thesis by (simp add: r)
qed

text \<open>
  C2, as stated, fails: a request of size 0 made when the extent is used up succeeds
  and returns the address \<open>base + pageAllocationSize\<close>, one past the extent, which is not
  within \<open>[base, base + pageAllocationSize)\<close>. On the extent of three pages, after three
  requests of 4000 bytes, the request of 0 bytes returns \<^verbatim>\<open>0x13000\<close>.
\<close>

theorem alloc_run_pointer_counterexample:
  "pageOffset adapter0 = 0 \<and> pageAllocationVa adapter0 AND 0xFFF = 0
   \<and> unat (pageAllocationVa adapter0) + unat (pageAllocationSize adapter0) < 2 ^ 64
   \<and> page_total [4000, 4000, 4000, 0] \<le> unat (pageAllocationSize adapter0)
   \<and> fst (alloc_run adapter0 memory0 [4000, 4000, 4000, 0] ! 3) = 0x13000
   \<and> \<not> unat (0x13000 :: PVOID) < unat (pageAllocationVa adapter0) + unat (pageAllocationSize adapter0)"
  by (simp add: adapter0_def page_total_def round_pages_def
      mem_alloc_contiguous_pages_def ROUND_TO_PAGES_def PAGE_SIZE_def Let_def)

text \<open>
  C2, amended. Take a sequence of allocation calls that starts from \<open>pageOffset = 0\<close> on
  a page-aligned extent lying in the address space below its top
  (\<open>base + pageAllocationSize < 2^64\<close>), with the sum of the page-rounded requested sizes
  at most \<open>pageAllocationSize\<close>. Then every call succeeds and returns the base plus the
  page-rounded sizes of the requests before it; the returned pointer is page-aligned and
  lies, with its whole page-rounded range, within \<open>[base, base + pageAllocationSize]\<close>,
  and within \<open>[base, base + pageAllocationSize)\<close> when the requested size is not 0; the
  page-rounded range is zero-filled on return; and the page-rounded range of every
  earlier call ends at or before the pointer, so no two ranges overlap.
\<close>

theorem alloc_run_pages:
  assumes off0: "pageOffset a = 0"
    and al: "pageAllocationVa a AND 0xFFF = 0"
    and fit: "unat (pageAllocationVa a) + unat (pageAllocationSize a) < 2 ^ 64"
    and cap: "page_total szs \<le> unat (pageAllocationSize a)"
    and i: "i < length szs"
  shows "case alloc_run a m szs ! i of (p, a', m') \<Rightarrow>
      unat p = unat (pageAllocationVa a) + page_total (take i szs)
    \<and> unat (pageOffset a') = page_total (take (Suc i) szs)
    \<and> unat (pageAllocationVa a) \<le> unat p
    \<and> unat p + round_pages (unat (szs ! i))
        \<le> unat (pageAllocationVa a) + unat (pageAllocationSize a)
    \<and> (szs ! i \<noteq> 0 \<longrightarrow> unat p < unat (pageAllocationVa a) + unat (pageAllocationSize a))
    \<and> p AND 0xFFF = 0
    \<and> (\<forall>k < round_pages (unat (szs ! i)). m' (p + of_nat k) = 0)
    \<and> (\<forall>j < i. unat (fst (alloc_run a m szs ! j)) + round_pages (unat (szs ! j)) \<le> unat p)"
proof -
  obtain p a' m' where r: "alloc_run a m szs ! i = (p, a', m')"
    by (cases "alloc_run a m szs ! i") auto
  from off0 cap have "unat (pageOffset a) + page_total szs \<le> unat (pageAllocationSize a)"
    by simp
  note nth = alloc_run_nth [OF this i, of m, unfolded r prod.case]
  have ptr: "unat p = unat (pageAllocationVa a) + page_total (take i szs)"
    using alloc_run_ptr [OF off0 fit cap i, of m] by (simp add: r)
  have cur: "unat (pageOffset a') = page_total (take (Suc i) szs)"
    using nth [THEN conjunct2, THEN conjunct1] off0 by simp
  have zero: "\<forall>k < round_pages (unat (szs ! i)). m' (p + of_nat k) = 0"
    by (rule nth [THEN conjunct2, THEN conjunct2])
  have suc: "page_total (take (Suc i) szs) = page_total (take i szs) + round_pages (unat (szs ! i))"
    using i by (rule page_total_take_Suc)
  have "page_total (take (Suc i) szs) \<le> page_total szs"
    by (rule page_total_take_le)
  with cap suc have "page_total (take i szs) + round_pages (unat (szs ! i)) \<le> unat (pageAllocationSize a)"
    by simp
  with ptr have upper: "unat p + round_pages (unat (szs ! i))
      \<le> unat (pageAllocationVa a) + unat (pageAllocationSize a)"
    by simp
  have lower: "unat (pageAllocationVa a) \<le> unat p"
    using ptr by simp
  have strict: "unat p < unat (pageAllocationVa a) + unat (pageAllocationSize a)" if "szs ! i \<noteq> 0"
  proof -
    from that have "0 < unat (szs ! i)" by (simp add: unat_gt_0)
    then have "0 < round_pages (unat (szs ! i))" by (rule round_pages_pos)
    with upper show ?thesis by simp
  qed
  have aligned: "p AND 0xFFF = 0"
  proof -
    from al have "4096 dvd unat (pageAllocationVa a)" by (simp add: page_aligned_iff)
    moreover have "4096 dvd page_total (take i szs)" by (rule page_total_dvd)
    ultimately have "4096 dvd unat p" unfolding ptr by (rule dvd_add)
    then show ?thesis by (simp add: page_aligned_iff)
  qed
  have before: "unat (fst (alloc_run a m szs ! j)) + round_pages (unat (szs ! j)) \<le> unat p"
    if "j < i" for j
  proof -
    from that i have j: "j < length szs" by simp
    have "unat (fst (alloc_run a m szs ! j)) = unat (pageAllocationVa a) + page_total (take j szs)"
      by (rule alloc_run_ptr [OF off0 fit cap j])
    moreover have "page_total (take (Suc j) szs)
        = page_total (take j szs) + round_pages (unat (szs ! j))"
      using j by (rule page_total_take_Suc)
    moreover have "page_total (take (Suc j) szs) \<le> page_total (take i szs)"
      using that by (intro page_total_take_mono) simp
    ultimately show ?thesis using ptr by simp
  qed
  from strict have strict':
    "szs ! i \<noteq> 0 \<longrightarrow> unat p < unat (pageAllocationVa a) + unat (pageAllocationSize a)"
    by blast
  from before have before':
    "\<forall>j < i. unat (fst (alloc_run a m szs ! j)) + round_pages (unat (szs ! j)) \<le> unat p"
    by blast
  show ?thesis
    unfolding r prod.case
    by (intro conjI ptr cur lower upper strict' aligned zero before')
qed

text \<open>
  Witness for the amended C2: the third of three requests of 4000 bytes on the extent
  of three pages returns \<^verbatim>\<open>0x12000\<close>, moves the cursor to \<^verbatim>\<open>0x3000\<close> and clears the last
  byte of its page, which held \<^verbatim>\<open>0xFF\<close> before.
\<close>

theorem alloc_run_pages_witness:
  "pageOffset adapter0 = 0 \<and> pageAllocationVa adapter0 AND 0xFFF = 0
   \<and> unat (pageAllocationVa adapter0) + unat (pageAllocationSize adapter0) < 2 ^ 64
   \<and> page_total [4000, 4000, 4000] \<le> unat (pageAllocationSize adapter0)
   \<and> (2 :: nat) < length [4000, 4000, 4000 :: size_t]
   \<and> fst (alloc_run adapter0 memory0 [4000, 4000, 4000] ! 2) = 0x12000
   \<and> pageOffset (fst (snd (alloc_run adapter0 memory0 [4000, 4000, 4000] ! 2))) = 0x3000
   \<and> snd (snd (alloc_run adapter0 memory0 [4000, 4000, 4000] ! 2)) 0x12FFF = 0
   \<and> memory0 0x12FFF \<noteq> 0"
  using alloc_run_pages [of adapter0 "[4000, 4000, 4000]" 2 memory0]
  by (simp add: adapter0_def memory0_def page_total_def round_pages_def
      mem_alloc_contiguous_pages_def ROUND_TO_PAGES_def PAGE_SIZE_def RtlZeroMemory_def Let_def)

section \<open>Properties of the BAR table\<close>

text \<open>
  C4. The BAR index \<open>-1\<close> passes the signed test \<^verbatim>\<open>bar < PCI_TYPE0_ADDRESSES\<close>, and both
  \<^verbatim>\<open>pci_get_resource_len\<close> and \<^verbatim>\<open>pci_map_address_range\<close> go on to the entry
  \<^verbatim>\<open>pci_bars[-1]\<close>, which lies outside the BAR table, whatever the context is.
\<close>

theorem bar_index_negative_unchecked:
  "pci_get_resource_len adaptExt (- 1) = Inl BarTableOutOfBounds
   \<and> pci_map_address_range h adaptExt (- 1) offset maxlen = Inl BarTableOutOfBounds"
  by (simp add: pci_get_resource_len_def pci_map_address_range_def bar_entry_def
      PCI_TYPE0_ADDRESSES_def word_sle_eq word_sless_alt)

text \<open>
  An index from \<^verbatim>\<open>PCI_TYPE0_ADDRESSES\<close> upwards is rejected before the table is touched:
  the length is 0, the pointer is null, and host and context are left alone.
\<close>

lemma bar_index_too_large:
  assumes "6 \<le> sint bar"
  shows "pci_get_resource_len adaptExt bar = Inr 0"
    and "pci_map_address_range h adaptExt bar offset maxlen = Inr (NULL, h, adaptExt)"
  using assms
  by (simp_all add: pci_get_resource_len_def pci_map_address_range_def
      PCI_TYPE0_ADDRESSES_def word_sless_alt)

text \<open>
  C9. \<^verbatim>\<open>maxlen\<close> has no effect: two calls that differ in \<^verbatim>\<open>maxlen\<close> only give the same
  pointer, the same host and the same context. In particular, on BAR 0 of length
  \<^verbatim>\<open>0x1000\<close>, the call with offset \<^verbatim>\<open>0xFFF\<close> and \<^verbatim>\<open>maxlen = 0x100\<close> returns the non-null
  pointer to the last byte of the BAR, although one byte, fewer than \<^verbatim>\<open>maxlen\<close>, is
  left before the end of the BAR.
\<close>

theorem maxlen_ignored:
  "pci_map_address_range h adaptExt bar offset m1 = pci_map_address_range h adaptExt bar offset m2
   \<and> map_sum id fst (pci_map_address_range host0 adapter0 0 0xFFF 0x100) = Inr 0xFFFFFFFF
   \<and> (0xFFFFFFFF :: PVOID) \<noteq> NULL
   \<and> unat (uLength (pci_bars adapter0 ! 0)) - unat (0xFFF :: size_t) < unat (0x100 :: size_t)"
  by (simp add: pci_map_address_range_def bar_entry_def PCI_TYPE0_ADDRESSES_def adapter0_def
      host0_def bar0_def host_base_def issue_def NULL_def Let_def word_sle_eq word_sless_alt
      double_not_def)

text \<open>
  The two branches of \<^verbatim>\<open>pci_map_address_range\<close> on an entry of the table: on a BAR whose
  \<^verbatim>\<open>pBase\<close> is null the host is asked once and its answer is stored; on a BAR whose
  \<^verbatim>\<open>pBase\<close> is set nothing is asked and nothing is stored.
\<close>

lemma bar_entry_valid:
  assumes "0 \<le> sint bar" "sint bar < 6" "length (pci_bars adaptExt) = 6"
  shows "bar <s PCI_TYPE0_ADDRESSES" and "bar_entry adaptExt bar = Some (nat (sint bar))"
  using assms by (simp_all add: bar_entry_def PCI_TYPE0_ADDRESSES_def word_sless_alt word_sle_eq)

lemma map_unmapped_bar:
  assumes "0 \<le> sint bar" "sint bar < 6" "length (pci_bars adaptExt) = 6"
    and "pBase (pci_bars adaptExt ! nat (sint bar)) = NULL"
  shows "pci_map_address_range h adaptExt bar offset maxlen =
    (let pBar = pci_bars adaptExt ! nat (sint bar);
         req = StorPortGetDeviceBase (system_io_bus_number adaptExt) (BasePA pBar) (uLength pBar)
                 (double_not (bPortSpace pBar));
         b = base_result h (calls h) req
     in Inr (if b \<noteq> NULL \<and> offset < ucast (uLength pBar) then b + offset else NULL,
             h\<lparr>calls := calls h @ [req]\<rparr>,
             adaptExt\<lparr>pci_bars := (pci_bars adaptExt)[nat (sint bar) := pBar\<lparr>pBase := b\<rparr>]\<rparr>))"
  using assms(4) bar_entry_valid [OF assms(1-3)]
  by (simp add: pci_map_address_range_def host_base_def issue_def Let_def)

lemma map_mapped_bar:
  assumes "0 \<le> sint bar" "sint bar < 6" "length (pci_bars adaptExt) = 6"
    and "pBase (pci_bars adaptExt ! nat (sint bar)) \<noteq> NULL"
  shows "pci_map_address_range h adaptExt bar offset maxlen =
    Inr (if offset < ucast (uLength (pci_bars adaptExt ! nat (sint bar)))
         then pBase (pci_bars adaptExt ! nat (sint bar)) + offset else NULL,
         h, adaptExt)"
  using assms(4) bar_entry_valid [OF assms(1-3)]
  by (simp add: pci_map_address_range_def Let_def)

text \<open>
  C6, as stated, fails: when the host refuses the first mapping request, \<^verbatim>\<open>pBase\<close> stays
  null, and the second call with the same index and offset asks the host again. With a
  host that grants the second request, the two calls on BAR 0 return null and then
  \<^verbatim>\<open>0xFFFFF500\<close>, and two mapping requests have been issued.
\<close>

theorem map_twice_counterexample:
  "0 \<le> sint (0 :: cint) \<and> sint (0 :: cint) < 6 \<and> length (pci_bars adapter0) = 6
   \<and> (case pci_map_address_range host1 adapter0 0 0x500 0x100 of
         Inl f \<Rightarrow> False
       | Inr (p1, h1, a1) \<Rightarrow>
           (case pci_map_address_range h1 a1 0 0x500 0x100 of
              Inl f \<Rightarrow> False
            | Inr (p2, h2, a2) \<Rightarrow>
                p1 = NULL \<and> p2 = 0xFFFFF500 \<and> p1 \<noteq> p2
                \<and> calls h1 = [StorPortGetDeviceBase 0 0xFEB00000 0x1000 0]
                \<and> calls h2 = [StorPortGetDeviceBase 0 0xFEB00000 0x1000 0,
                               StorPortGetDeviceBase 0 0xFEB00000 0x1000 0]))"
  by (simp add: pci_map_address_range_def bar_entry_def PCI_TYPE0_ADDRESSES_def adapter0_def
      host1_def host0_def bar0_def host_base_def issue_def NULL_def Let_def
      word_sle_eq word_sless_alt double_not_def)

text \<open>
  C6, amended. For every valid BAR index (from 0 to 5, on a table of six entries):
  a call on a BAR whose mapped base is unset issues exactly one mapping request (bus
  number, physical base, length, port-space flag), stores the host's answer as the BAR's
  mapped base and returns that base plus the offset when the answer is not null and the
  offset is below the BAR's length, and null otherwise; a call on a BAR whose mapped base
  is set issues no host call and leaves the context unchanged. So whenever the BAR is
  mapped after the first call (it was mapped before, or the request was granted), a
  second call with the same index and offset returns the same pointer and issues no new
  mapping request. A mapped base that is not null is never changed by a call, so it is
  never reset to null.
\<close>

theorem map_cached:
  assumes "0 \<le> sint bar" "sint bar < 6" "length (pci_bars adaptExt) = 6"
  shows "(pBase (pci_bars adaptExt ! nat (sint bar)) = NULL \<longrightarrow>
           pci_map_address_range h adaptExt bar offset maxlen =
             (let pBar = pci_bars adaptExt ! nat (sint bar);
                  req = StorPortGetDeviceBase (system_io_bus_number adaptExt) (BasePA pBar)
                          (uLength pBar) (double_not (bPortSpace pBar));
                  b = base_result h (calls h) req
              in Inr (if b \<noteq> NULL \<and> offset < ucast (uLength pBar) then b + offset else NULL,
                      h\<lparr>calls := calls h @ [req]\<rparr>,
                      adaptExt\<lparr>pci_bars :=
                        (pci_bars adaptExt)[nat (sint bar) := pBar\<lparr>pBase := b\<rparr>]\<rparr>)))
       \<and> (pBase (pci_bars adaptExt ! nat (sint bar)) \<noteq> NULL \<longrightarrow>
           pci_map_address_range h adaptExt bar offset maxlen =
             Inr (if offset < ucast (uLength (pci_bars adaptExt ! nat (sint bar)))
                  then pBase (pci_bars adaptExt ! nat (sint bar)) + offset else NULL,
                  h, adaptExt))
       \<and> (case pci_map_address_range h adaptExt bar offset maxlen of
             Inl f \<Rightarrow> False
           | Inr (p1, h1, a1) \<Rightarrow>
               (pBase (pci_bars a1 ! nat (sint bar)) \<noteq> NULL \<longrightarrow>
                  pci_map_address_range h1 a1 bar offset maxlen = Inr (p1, h1, a1))
               \<and> (\<forall>j < 6. pBase (pci_bars adaptExt ! j) \<noteq> NULL \<longrightarrow>
                      pBase (pci_bars a1 ! j) = pBase (pci_bars adaptExt ! j)))"
proof (cases "pBase (pci_bars adaptExt ! nat (sint bar)) = NULL")
  case True
  let ?i = "nat (sint bar)"
  let ?pBar = "pci_bars adaptExt ! ?i"
  let ?req = "StorPortGetDeviceBase (system_io_bus_number adaptExt) (BasePA ?pBar)
                (uLength ?pBar) (double_not (bPortSpace ?pBar))"
  let ?b = "base_result h (calls h) ?req"
  let ?a1 = "adaptExt\<lparr>pci_bars := (pci_bars adaptExt)[?i := ?pBar\<lparr>pBase := ?b\<rparr>]\<rparr>"
  let ?h1 = "h\<lparr>calls := calls h @ [?req]\<rparr>"
  let ?p1 = "if ?b \<noteq> NULL \<and> offset < ucast (uLength ?pBar) then ?b + offset else NULL"
  have i: "?i < length (pci_bars adaptExt)" using assms by simp
  have first: "pci_map_address_range h adaptExt bar offset maxlen = Inr (?p1, ?h1, ?a1)"
    using map_unmapped_bar [OF assms True, of h offset maxlen] by (simp add: Let_def)
  have len1: "length (pci_bars ?a1) = 6" using assms by simp
  have entry1: "pci_bars ?a1 ! ?i = ?pBar\<lparr>pBase := ?b\<rparr>" using i by simp
  have second: "pci_map_address_range ?h1 ?a1 bar offset maxlen = Inr (?p1, ?h1, ?a1)"
    if "pBase (pci_bars ?a1 ! ?i) \<noteq> NULL"
  proof -
    from that [unfolded entry1] have b: "?b \<noteq> NULL" by simp
    have "pBase (pci_bars ?a1 ! ?i) \<noteq> NULL" by (rule that)
    from map_mapped_bar [OF assms(1,2) len1 this, of ?h1 offset maxlen] b i
    show ?thesis by simp
  qed
  have kept: "pBase (pci_bars ?a1 ! j) = pBase (pci_bars adaptExt ! j)"
    if "j < 6" "pBase (pci_bars adaptExt ! j) \<noteq> NULL" for j
  proof -
    from that(2) True have "j \<noteq> ?i" by auto
    then show ?thesis by simp
  qed
  from True first second kept show ?thesis by (simp add: Let_def)
next
  case False
  have first: "pci_map_address_range h adaptExt bar offset maxlen =
      Inr (if offset < ucast (uLength (pci_bars adaptExt ! nat (sint bar)))
           then pBase (pci_bars adaptExt ! nat (sint bar)) + offset else NULL, h, adaptExt)"
    by (rule map_mapped_bar [OF assms False])
  with False show ?thesis by simp
qed

text \<open>
  Witness for the amended C6, the scenario of the specification: BAR 0 of length
  \<^verbatim>\<open>0x1000\<close>, not mapped yet, and a host that grants the mapping at \<^verbatim>\<open>0xFFFFF000\<close>. The
  first call issues one mapping request and returns \<^verbatim>\<open>0xFFFFF500\<close>; the second call
  returns the same pointer with the same host history and the same context.
\<close>

theorem map_cached_witness:
  "0 \<le> sint (0 :: cint) \<and> sint (0 :: cint) < 6 \<and> length (pci_bars adapter0) = 6
   \<and> pBase (pci_bars adapter0 ! nat (sint (0 :: cint))) = NULL
   \<and> (case pci_map_address_range host0 adapter0 0 0x500 0x100 of
         Inl f \<Rightarrow> False
       | Inr (p1, h1, a1) \<Rightarrow>
           p1 = 0xFFFFF500
           \<and> calls h1 = [StorPortGetDeviceBase 0 0xFEB00000 0x1000 0]
           \<and> pBase (pci_bars a1 ! 0) = 0xFFFFF000
           \<and> pBase (pci_bars a1 ! nat (sint (0 :: cint))) \<noteq> NULL
           \<and> pci_map_address_range h1 a1 0 0x500 0x100 = Inr (p1, h1, a1))"
  using map_cached [of 0 adapter0 host0 "0x500" "0x100"]
  by (simp add: pci_map_address_range_def bar_entry_def PCI_TYPE0_ADDRESSES_def adapter0_def
      host0_def bar0_def host_base_def issue_def NULL_def Let_def word_sle_eq word_sless_alt
      double_not_def)

section \<open>Properties of the interrupt vectors\<close>

text \<open>
  C7, as stated, fails: with MSI-X enabled, the queue index \<^verbatim>\<open>0xFFFF\<close> is not
  answered with \<^verbatim>\<open>0x10000\<close>, which no \<^verbatim>\<open>u16\<close> holds, but with 0.
\<close>

theorem msix_vector_succ_counterexample:
  "0 \<le> sint (0xFFFF :: cint) \<and> msix_enabled adapter0 \<noteq> 0
   \<and> uint (vdev_get_msix_vector adapter0 0xFFFF) \<noteq> sint (0xFFFF :: cint) + 1"
  by (simp add: vdev_get_msix_vector_def adapter0_def word_sle_eq)

text \<open>
  C7, amended. For every queue index \<open>k\<close> from 0 to 65534, \<^verbatim>\<open>vdev_get_msix_vector\<close>
  returns \<open>k + 1\<close> when MSI-X is enabled; for every queue index \<open>k \<ge> 0\<close> it returns the
  ``no vector'' sentinel when MSI-X is disabled; for every negative queue index it returns
  the sentinel whether MSI-X is enabled or not.
\<close>

theorem msix_vector_small_queue:
  "(0 \<le> sint queue \<and> sint queue \<le> 65534 \<and> msix_enabled adaptExt \<noteq> 0
      \<longrightarrow> uint (vdev_get_msix_vector adaptExt queue) = sint queue + 1)
   \<and> (0 \<le> sint queue \<and> msix_enabled adaptExt = 0
      \<longrightarrow> vdev_get_msix_vector adaptExt queue = VIRTIO_MSI_NO_VECTOR)
   \<and> (sint queue < 0 \<longrightarrow> vdev_get_msix_vector adaptExt queue = VIRTIO_MSI_NO_VECTOR)"
proof -
  have "uint (vdev_get_msix_vector adaptExt queue) = sint queue + 1"
    if "0 \<le> sint queue" "sint queue \<le> 65534" "msix_enabled adaptExt \<noteq> 0"
  proof -
    have "uint (vdev_get_msix_vector adaptExt queue) = (sint queue + 1) mod 2 ^ 16"
      using that by (simp add: vdev_get_msix_vector_def word_sle_eq uint_ucast_succ)
    also have "\<dots> = sint queue + 1"
      using that by simp
    finally show ?thesis .
  qed
  then show ?thesis
    by (simp add: vdev_get_msix_vector_def word_sle_eq)
qed

text \<open>
  Witness for the amended C7: queue 3 with MSI-X enabled gets vector 4, queue 3 with
  MSI-X disabled and the configuration-change channel \<open>-1\<close> get the sentinel.
\<close>

theorem msix_vector_small_queue_witness:
  "0 \<le> sint (3 :: cint) \<and> sint (3 :: cint) \<le> 65534 \<and> msix_enabled adapter0 \<noteq> 0
   \<and> uint (vdev_get_msix_vector adapter0 3) = 4
   \<and> msix_enabled (adapter0\<lparr>msix_enabled := 0\<rparr>) = 0
   \<and> vdev_get_msix_vector (adapter0\<lparr>msix_enabled := 0\<rparr>) 3 = VIRTIO_MSI_NO_VECTOR
   \<and> sint (- 1 :: cint) < 0
   \<and> vdev_get_msix_vector adapter0 (- 1) = VIRTIO_MSI_NO_VECTOR"
  using msix_vector_small_queue [of 3 adapter0]
    msix_vector_small_queue [of 3 "adapter0\<lparr>msix_enabled := 0\<rparr>"]
    msix_vector_small_queue [of "- 1" adapter0]
  by (simp add: adapter0_def)

text \<open>
  C10. With MSI-X enabled, the vector returned for a queue index \<open>k \<ge> 0\<close> is
  \<open>(k + 1) mod 2^16\<close>. So queue \<^verbatim>\<open>0xFFFF\<close> gets vector 0, and queue \<^verbatim>\<open>0xFFFE\<close> gets
  \<^verbatim>\<open>0xFFFF\<close>, the ``no vector'' sentinel: the answer for that queue is the same with MSI-X
  enabled and with MSI-X disabled.
\<close>

theorem msix_vector_truncates:
  "(0 \<le> sint queue \<and> msix_enabled adaptExt \<noteq> 0
      \<longrightarrow> uint (vdev_get_msix_vector adaptExt queue) = (sint queue + 1) mod 2 ^ 16)
   \<and> (msix_enabled adaptExt \<noteq> 0
      \<longrightarrow> vdev_get_msix_vector adaptExt 0xFFFF = 0
        \<and> vdev_get_msix_vector adaptExt 0xFFFE = VIRTIO_MSI_NO_VECTOR
        \<and> vdev_get_msix_vector adaptExt 0xFFFE
            = vdev_get_msix_vector (adaptExt\<lparr>msix_enabled := 0\<rparr>) 0xFFFE)"
  by (simp add: vdev_get_msix_vector_def word_sle_eq uint_ucast_succ VIRTIO_MSI_NO_VECTOR_def)

text \<open>
  Witness for C10: queue \<^verbatim>\<open>0x1FFFF\<close> on the adapter with MSI-X enabled gets vector 0, as
  \<open>0x20000 mod 2^16 = 0\<close>.
\<close>

theorem msix_vector_truncates_witness:
  "0 \<le> sint (0x1FFFF :: cint) \<and> msix_enabled adapter0 \<noteq> 0
   \<and> uint (vdev_get_msix_vector adapter0 0x1FFFF) = 0
   \<and> vdev_get_msix_vector adapter0 0xFFFF = 0
   \<and> vdev_get_msix_vector adapter0 0xFFFE = VIRTIO_MSI_NO_VECTOR"
  using msix_vector_truncates [of "0x1FFFF" adapter0]
  by (simp add: adapter0_def)

section \<open>Properties of the register access\<close>

text \<open>
  C5. For every address \<open>a\<close>, each of the six register routines issues exactly one host
  call, at the address \<open>a\<close> and of the routine's own width and direction; the call is a
  memory-space (register) access if and only if \<^verbatim>\<open>a & ~0xFFFF != 0\<close>, which is the case
  exactly for the addresses above \<^verbatim>\<open>0xFFFF\<close>, and a port-space access otherwise. A read
  returns the value the host gave for that call, a write hands on the value it received.
\<close>

theorem register_access_dispatch:
  "(\<exists>c. ReadVirtIODeviceByte h a = (uchar_result h (calls h) c, h\<lparr>calls := calls h @ [c]\<rparr>)
        \<and> access_of c = Some (Read, dispatch a, UcharAccess, a))
   \<and> (\<exists>c. ReadVirtIODeviceWord h a = (ushort_result h (calls h) c, h\<lparr>calls := calls h @ [c]\<rparr>)
        \<and> access_of c = Some (Read, dispatch a, UshortAccess, a))
   \<and> (\<exists>c. ReadVirtIODeviceRegister h a = (ulong_result h (calls h) c, h\<lparr>calls := calls h @ [c]\<rparr>)
        \<and> access_of c = Some (Read, dispatch a, UlongAccess, a))
   \<and> (\<exists>c. WriteVirtIODeviceByte h a bValue = h\<lparr>calls := calls h @ [c]\<rparr>
        \<and> access_of c = Some (Write, dispatch a, UcharAccess, a)
        \<and> written c = Some (unat bValue))
   \<and> (\<exists>c. WriteVirtIODeviceWord h a wValue = h\<lparr>calls := calls h @ [c]\<rparr>
        \<and> access_of c = Some (Write, dispatch a, UshortAccess, a)
        \<and> written c = Some (unat wValue))
   \<and> (\<exists>c. WriteVirtIODeviceRegister h a ulValue = h\<lparr>calls := calls h @ [c]\<rparr>
        \<and> access_of c = Some (Write, dispatch a, UlongAccess, a)
        \<and> written c = Some (unat ulValue))
   \<and> ((dispatch a = MemorySpace) = (a AND NOT 0xFFFF \<noteq> 0))
   \<and> ((dispatch a = PortSpace) = (a AND NOT 0xFFFF = 0))
   \<and> ((dispatch a = MemorySpace) = (0xFFFF < a))"
proof -
  have m: "(0xFFFF :: 64 word) = mask 16"
    by (simp add: mask_eq_exp_minus_1)
  have d: "dispatch a = (if a AND scast (NOT PORT_MASK) \<noteq> 0 then MemorySpace else PortSpace)"
    by (simp add: dispatch_def not_port_mask m)
  have above: "(dispatch a = MemorySpace) = (0xFFFF < a)"
    using above_port_mask [of a] by (simp add: dispatch_def m)
  have rb: "\<exists>c. ReadVirtIODeviceByte h a = (uchar_result h (calls h) c, h\<lparr>calls := calls h @ [c]\<rparr>)
        \<and> access_of c = Some (Read, dispatch a, UcharAccess, a)"
  proof (cases "a AND scast (NOT PORT_MASK) \<noteq> 0")
    case True
    then show ?thesis
      by (intro exI [of _ "StorPortReadRegisterUchar a"])
        (simp add: d ReadVirtIODeviceByte_def host_uchar_def issue_def)
  next
    case False
    then show ?thesis
      by (intro exI [of _ "StorPortReadPortUchar a"])
        (simp add: d ReadVirtIODeviceByte_def host_uchar_def issue_def)
  qed
  have rw: "\<exists>c. ReadVirtIODeviceWord h a = (ushort_result h (calls h) c, h\<lparr>calls := calls h @ [c]\<rparr>)
        \<and> access_of c = Some (Read, dispatch a, UshortAccess, a)"
  proof (cases "a AND scast (NOT PORT_MASK) \<noteq> 0")
    case True
    then show ?thesis
      by (intro exI [of _ "StorPortReadRegisterUshort a"])
        (simp add: d ReadVirtIODeviceWord_def host_ushort_def issue_def)
  next
    case False
    then show ?thesis
      by (intro exI [of _ "StorPortReadPortUshort a"])
        (simp add: d ReadVirtIODeviceWord_def host_ushort_def issue_def)
  qed
  have rd: "\<exists>c. ReadVirtIODeviceRegister h a = (ulong_result h (calls h) c, h\<lparr>calls := calls h @ [c]\<rparr>)
        \<and> access_of c = Some (Read, dispatch a, UlongAccess, a)"
  proof (cases "a AND scast (NOT PORT_MASK) \<noteq> 0")
    case True
    then show ?thesis
      by (intro exI [of _ "StorPortReadRegisterUlong a"])
        (simp add: d ReadVirtIODeviceRegister_def host_ulong_def issue_def)
  next
    case False
    then show ?thesis
      by (intro exI [of _ "StorPortReadPortUlong a"])
        (simp add: d ReadVirtIODeviceRegister_def host_ulong_def issue_def)
  qed
  have wb: "\<exists>c. WriteVirtIODeviceByte h a bValue = h\<lparr>calls := calls h @ [c]\<rparr>
        \<and> access_of c = Some (Write, dispatch a, UcharAccess, a)
        \<and> written c = Some (unat bValue)"
  proof (cases "a AND scast (NOT PORT_MASK) \<noteq> 0")
    case True
    then show ?thesis
      by (intro exI [of _ "StorPortWriteRegisterUchar a bValue"])
        (simp add: d WriteVirtIODeviceByte_def issue_def)
  next
    case False
    then show ?thesis
      by (intro exI [of _ "StorPortWritePortUchar a bValue"])
        (simp add: d WriteVirtIODeviceByte_def issue_def)
  qed
  have ww: "\<exists>c. WriteVirtIODeviceWord h a wValue = h\<lparr>calls := calls h @ [c]\<rparr>
        \<and> access_of c = Some (Write, dispatch a, UshortAccess, a)
        \<and> written c = Some (unat wValue)"
  proof (cases "a AND scast (NOT PORT_MASK) \<noteq> 0")
    case True
    then show ?thesis
      by (intro exI [of _ "StorPortWriteRegisterUshort a wValue"])
        (simp add: d WriteVirtIODeviceWord_def issue_def)
  next
    case False
    then show ?thesis
      by (intro exI [of _ "StorPortWritePortUshort a wValue"])
        (simp add: d WriteVirtIODeviceWord_def issue_def)
  qed
  have wd: "\<exists>c. WriteVirtIODeviceRegister h a ulValue = h\<lparr>calls := calls h @ [c]\<rparr>
        \<and> access_of c = Some (Write, dispatch a, UlongAccess, a)
        \<and> written c = Some (unat ulValue)"
  proof (cases "a AND scast (NOT PORT_MASK) \<noteq> 0")
    case True
    then show ?thesis
      by (intro exI [of _ "StorPortWriteRegisterUlong a ulValue"])
        (simp add: d WriteVirtIODeviceRegister_def issue_def)
  next
    case False
    then show ?thesis
      by (intro exI [of _ "StorPortWritePortUlong a ulValue"])
        (simp add: d WriteVirtIODeviceRegister_def issue_def)
  qed
  have mem: "(dispatch a = MemorySpace) = (a AND NOT 0xFFFF \<noteq> 0)"
    by (simp add: dispatch_def)
  have port: "(dispatch a = PortSpace) = (a AND NOT 0xFFFF = 0)"
    by (simp add: dispatch_def)
  from rb rw rd wb ww wd mem port above show ?thesis
    by (intro conjI)
qed

section \<open>Properties of the configuration snapshot\<close>

text \<open>
  C8, as stated, fails: 255 is an offset within the snapshot of 256 bytes, but the word
  read at 255 takes its second byte from behind the snapshot.
\<close>

theorem config_word_last_offset_counterexample:
  "length (pci_config_buf adapter0) = 256
   \<and> 0 \<le> sint (255 :: cint) \<and> nat (sint (255 :: cint)) < length (pci_config_buf adapter0)
   \<and> pci_read_config_word adapter0 255 = Inl ConfigBufferOutOfBounds"
  by (simp add: pci_read_config_word_def config_bytes_def adapter0_def snapshot0_def word_sle_eq)

text \<open>
  C8, amended. For every offset such that the bytes read (one, two or four from the
  offset on) all lie within the snapshot, \<^verbatim>\<open>pci_read_config_byte\<close> returns the snapshot
  byte at the offset, \<^verbatim>\<open>pci_read_config_word\<close> the little-endian composition of the two
  snapshot bytes and \<^verbatim>\<open>pci_read_config_dword\<close> that of the four snapshot bytes at the
  offset, each with return code 0; in particular bytes \<^verbatim>\<open>0x34\<close> at \<^verbatim>\<open>0x2E\<close> and \<^verbatim>\<open>0x12\<close> at
  \<^verbatim>\<open>0x2F\<close> make the word at \<^verbatim>\<open>0x2E\<close> \<^verbatim>\<open>0x1234\<close>. The result is a function of the snapshot
  alone: two contexts with the same snapshot give the same results, and the routines
  take no host and issue no host call.
\<close>

theorem config_reads_little_endian:
  "(0 \<le> sint pos \<and> nat (sint pos) + 1 \<le> length (pci_config_buf adaptExt)
      \<longrightarrow> pci_read_config_byte adaptExt pos = Inr (0, pci_config_buf adaptExt ! nat (sint pos)))
   \<and> (0 \<le> sint pos \<and> nat (sint pos) + 2 \<le> length (pci_config_buf adaptExt)
      \<longrightarrow> (\<exists>v. pci_read_config_word adaptExt pos = Inr (0, v)
            \<and> uint v = uint (pci_config_buf adaptExt ! nat (sint pos))
                       + 256 * uint (pci_config_buf adaptExt ! (nat (sint pos) + 1))))
   \<and> (0 \<le> sint pos \<and> nat (sint pos) + 4 \<le> length (pci_config_buf adaptExt)
      \<longrightarrow> (\<exists>v. pci_read_config_dword adaptExt pos = Inr (0, v)
            \<and> uint v = uint (pci_config_buf adaptExt ! nat (sint pos))
                       + 256 * uint (pci_config_buf adaptExt ! (nat (sint pos) + 1))
                       + 65536 * uint (pci_config_buf adaptExt ! (nat (sint pos) + 2))
                       + 16777216 * uint (pci_config_buf adaptExt ! (nat (sint pos) + 3))))
   \<and> (0x30 \<le> length (pci_config_buf adaptExt)
        \<and> pci_config_buf adaptExt ! 0x2E = 0x34 \<and> pci_config_buf adaptExt ! 0x2F = 0x12
      \<longrightarrow> pci_read_config_word adaptExt 0x2E = Inr (0, 0x1234))
   \<and> (pci_config_buf adaptExt' = pci_config_buf adaptExt
      \<longrightarrow> pci_read_config_byte adaptExt' pos = pci_read_config_byte adaptExt pos
        \<and> pci_read_config_word adaptExt' pos = pci_read_config_word adaptExt pos
        \<and> pci_read_config_dword adaptExt' pos = pci_read_config_dword adaptExt pos)"
proof -
  let ?buf = "pci_config_buf adaptExt"
  let ?i = "nat (sint pos)"
  have byte: "pci_read_config_byte adaptExt pos = Inr (0, ?buf ! ?i)"
    if "0 \<le> sint pos" "?i + 1 \<le> length ?buf"
    using that by (simp add: pci_read_config_byte_def config_bytes_def word_sle_eq drop_one)
  have word: "\<exists>v. pci_read_config_word adaptExt pos = Inr (0, v)
      \<and> uint v = uint (?buf ! ?i) + 256 * uint (?buf ! (?i + 1))"
    if "0 \<le> sint pos" "?i + 2 \<le> length ?buf"
    using that
    by (simp add: pci_read_config_word_def config_bytes_def word_sle_eq drop_two uint_word_cat_16)
  have dword: "\<exists>v. pci_read_config_dword adaptExt pos = Inr (0, v)
      \<and> uint v = uint (?buf ! ?i) + 256 * uint (?buf ! (?i + 1))
                 + 65536 * uint (?buf ! (?i + 2)) + 16777216 * uint (?buf ! (?i + 3))"
    if "0 \<le> sint pos" "?i + 4 \<le> length ?buf"
    using that
    by (simp add: pci_read_config_dword_def config_bytes_def word_sle_eq drop_four
        uint_word_cat_16 uint_word_cat_32)
  have scenario: "pci_read_config_word adaptExt 0x2E = Inr (0, 0x1234)"
    if "0x30 \<le> length ?buf" "?buf ! 0x2E = 0x34" "?buf ! 0x2F = 0x12"
  proof -
    have "take 2 (drop 46 ?buf) = [?buf ! 46, ?buf ! (46 + 1)]"
      using that(1) by (intro drop_two) simp
    moreover have "word_cat (0x12 :: u8) (0x34 :: u8) = (0x1234 :: u16)"
      by (simp add: word_uint_eq_iff uint_word_cat_16)
    ultimately show ?thesis
      using that by (simp add: pci_read_config_word_def config_bytes_def word_sle_eq)
  qed
  have same: "pci_read_config_byte adaptExt' pos = pci_read_config_byte adaptExt pos
      \<and> pci_read_config_word adaptExt' pos = pci_read_config_word adaptExt pos
      \<and> pci_read_config_dword adaptExt' pos = pci_read_config_dword adaptExt pos"
    if "pci_config_buf adaptExt' = ?buf"
    using that
    by (simp add: pci_read_config_byte_def pci_read_config_word_def pci_read_config_dword_def)
  from byte word dword scenario same show ?thesis by blast
qed

text \<open>
  Witness for the amended C8, on the snapshot of the scenario: the byte, the word and
  the dword at \<^verbatim>\<open>0x2E\<close>.
\<close>

theorem config_reads_little_endian_witness:
  "0 \<le> sint (0x2E :: cint) \<and> nat (sint (0x2E :: cint)) + 4 \<le> length (pci_config_buf adapter0)
   \<and> 0x30 \<le> length (pci_config_buf adapter0)
   \<and> pci_config_buf adapter0 ! 0x2E = 0x34 \<and> pci_config_buf adapter0 ! 0x2F = 0x12
   \<and> pci_config_buf (adapter0\<lparr>msix_enabled := 0\<rparr>) = pci_config_buf adapter0
   \<and> pci_read_config_byte adapter0 0x2E = Inr (0, 0x34)
   \<and> pci_read_config_word adapter0 0x2E = Inr (0, 0x1234)
   \<and> (\<exists>v. pci_read_config_dword adapter0 0x2E = Inr (0, v) \<and> uint v = 0x1234)
   \<and> pci_read_config_word (adapter0\<lparr>msix_enabled := 0\<rparr>) 0x2E = Inr (0, 0x1234)"
  using config_reads_little_endian [of "0x2E" adapter0 "adapter0\<lparr>msix_enabled := 0\<rparr>"]
  by (simp add: adapter0_def snapshot0_def)

end
